theory Spec2Isabelle
  imports Main
begin

section \<open>Python strings and lists, as far as the integration uses them\<close>

text \<open>
  The integration (\<^verbatim>\<open>custom_components/sleep_as_android/__init__.py\<close>) works on MQTT
  topics: strings cut at \<^verbatim>\<open>/\<close>. Python's \<^verbatim>\<open>str.split\<close> with a separator always
  returns at least one piece (the empty string gives one empty piece), keeps empty pieces,
  and \<^verbatim>\<open>'/'.join\<close> puts one separator between neighbours.
\<close>

datatype error = IndexError | KeyError

fun split_str :: "char \<Rightarrow> string \<Rightarrow> string list" where
  "split_str c [] = [[]]"
| "split_str c (x # xs) =
     (let r = split_str c xs
      in if x = c then [] # r else (x # hd r) # tl r)"

fun join_str :: "string \<Rightarrow> string list \<Rightarrow> string" where
  "join_str sep [] = []"
| "join_str sep [s] = s"
| "join_str sep (s # t # ss) = s @ sep @ join_str sep (t # ss)"

abbreviation topic_split :: "string \<Rightarrow> string list" where
  "topic_split t \<equiv> split_str CHR ''/'' t"

abbreviation topic_join :: "string list \<Rightarrow> string" where
  "topic_join ss \<equiv> join_str ''/'' ss"

text \<open>
  \<^verbatim>\<open>s[position]\<close> on a list: an index from \<^verbatim>\<open>-len\<close> to \<^verbatim>\<open>len - 1\<close> is read (a
  negative one counts from the end), any other raises \<^verbatim>\<open>IndexError\<close>.
\<close>

definition list_getitem :: "'a list \<Rightarrow> int \<Rightarrow> error + 'a" where
  "list_getitem s position =
     (if 0 \<le> position \<and> position < int (length s) then Inr (s ! nat position)
      else if - int (length s) \<le> position \<and> position < 0
        then Inr (s ! nat (int (length s) + position))
      else Inl IndexError)"

text \<open>
  \<^verbatim>\<open>splitted[i] = v\<close> with a count \<^verbatim>\<open>i\<close> that is never negative: the item is replaced
  when it exists, and \<^verbatim>\<open>IndexError\<close> is raised otherwise.
\<close>

definition list_setitem :: "'a list \<Rightarrow> nat \<Rightarrow> 'a \<Rightarrow> error + 'a list" where
  "list_setitem xs i v = (if i < length xs then Inr (xs[i := v]) else Inl IndexError)"

text \<open>
  \<^verbatim>\<open>s.replace(old, new, 1)\<close>: the leftmost occurrence of \<^verbatim>\<open>old\<close> is replaced, the
  string is returned as it is when there is none.
\<close>

fun replace_first :: "string \<Rightarrow> string \<Rightarrow> string \<Rightarrow> string" where
  "replace_first old new [] = (if old = [] then new else [])"
| "replace_first old new (c # cs) =
     (if take (length old) (c # cs) = old then new @ drop (length old) (c # cs)
      else c # replace_first old new cs)"

text \<open>\<^verbatim>\<open>old in s\<close>: the string \<^verbatim>\<open>old\<close> occurs somewhere in \<^verbatim>\<open>s\<close>.\<close>

fun occurs_in :: "string \<Rightarrow> string \<Rightarrow> bool" where
  "occurs_in old [] = (old = [])"
| "occurs_in old (c # cs) = (take (length old) (c # cs) = old \<or> occurs_in old cs)"

section \<open>The configuration entry and the instance\<close>

text \<open>
  The host validates what a config entry holds: \<^verbatim>\<open>name\<close> and the topics are strings,
  \<^verbatim>\<open>qos\<close> is an integer. Each of the entry's two dictionaries (\<^verbatim>\<open>options\<close> and
  \<^verbatim>\<open>data\<close>) is a record of the keys the integration reads or writes; a key that is
  absent is \<open>None\<close>, and reading it is Python's \<^verbatim>\<open>KeyError\<close>.
\<close>

record config_dict =
  name_key :: "string option"
  qos_key :: "int option"
  topic_template_key :: "string option"
  root_topic_key :: "string option"
  topic_key :: "string option"

record ConfigEntry =
  options :: config_dict
  data :: config_dict

record message =
  topic :: string
  payload :: string

text \<open>
  Modelled from the spec: the class \<^verbatim>\<open>SleepAsAndroidSensor\<close> lives in \<^verbatim>\<open>sensor.py\<close>,
  which is not among the sources. A sensor is constructed from the host, the config entry
  and the device name it is bound to; the object keeps the last two.
\<close>

record SleepAsAndroidSensor =
  sensor_entry :: ConfigEntry
  sensor_name :: string

text \<open>
  Python compares sensors by identity, so a sensor handle is the address of the object:
  its index in the store \<open>heap\<close> of the sensor objects constructed so far. The other
  fields are the attributes \<^verbatim>\<open>_config_entry\<close>, \<^verbatim>\<open>__sensors\<close>, \<^verbatim>\<open>_name\<close> and
  \<^verbatim>\<open>_updating\<close> of \<^verbatim>\<open>SleepAsAndroidInstance\<close>.
\<close>

type_synonym handle = nat

record sleep_instance =
  entry :: ConfigEntry
  sensors :: "string \<rightharpoonup> handle"
  own_name :: string
  updating :: bool
  heap :: "SleepAsAndroidSensor list"

text \<open>
  \<^verbatim>\<open>get_from_config\<close>: the options first, the data when the options lack the key.
  \<open>None\<close> is the \<^verbatim>\<open>KeyError\<close> of the second lookup.
\<close>

definition get_from_config :: "ConfigEntry \<Rightarrow> (config_dict \<Rightarrow> 'a option) \<Rightarrow> 'a option" where
  "get_from_config config_entry key =
     (case key (options config_entry) of
        Some v \<Rightarrow> Some v
      | None \<Rightarrow> key (data config_entry))"

text \<open>\<^verbatim>\<open>__init__\<close>: no sensor yet; the name and the update flag are read from the entry.\<close>

definition SleepAsAndroidInstance :: "ConfigEntry \<Rightarrow> sleep_instance" where
  "SleepAsAndroidInstance config_entry =
     \<lparr> entry = config_entry,
       sensors = Map.empty,
       own_name = (case get_from_config config_entry name_key of
                     Some v \<Rightarrow> v
                   | None \<Rightarrow> ''SleepAsAndroid''),
       updating = (case topic_template_key (options config_entry) of
                     Some _ \<Rightarrow> False
                   | None \<Rightarrow> True),
       heap = [] \<rparr>"

section \<open>The topic template\<close>

text \<open>
  \<^verbatim>\<open>DEVICE_MACRO\<close> is imported from \<^verbatim>\<open>const.py\<close>, which is not among the sources; the
  functions below take it as their first argument, so every result holds for whatever
  value the constant has.
\<close>

definition configured_topic :: "string \<Rightarrow> sleep_instance \<Rightarrow> string" where
  "configured_topic DEVICE_MACRO self =
     (case get_from_config (entry self) topic_template_key of
        Some t \<Rightarrow> t
      | None \<Rightarrow> ''SleepAsAndroid/'' @ DEVICE_MACRO)"

text \<open>
  \<^verbatim>\<open>device_position_in_topic\<close> counts the segments in front of the first one equal to
  the macro. The loop is the recursion over the segments; \<^verbatim>\<open>break\<close> ends it.
\<close>

fun position_loop :: "string \<Rightarrow> string list \<Rightarrow> nat \<Rightarrow> nat" where
  "position_loop DEVICE_MACRO [] result = result"
| "position_loop DEVICE_MACRO (p # ps) result =
     (if p = DEVICE_MACRO then result else position_loop DEVICE_MACRO ps (result + 1))"

definition device_position_in_topic :: "string \<Rightarrow> sleep_instance \<Rightarrow> nat" where
  "device_position_in_topic DEVICE_MACRO self =
     position_loop DEVICE_MACRO (topic_split (configured_topic DEVICE_MACRO self)) 0"

text \<open>
  \<^verbatim>\<open>device_name_from_topic_and_position\<close>: the result starts as \<^verbatim>\<open>"unknown_device"\<close>,
  and the handler around \<^verbatim>\<open>s[position]\<close> catches \<^verbatim>\<open>KeyError\<close> only; any other
  exception leaves the function.
\<close>

definition device_name_from_topic_and_position :: "string \<Rightarrow> int \<Rightarrow> error + string" where
  "device_name_from_topic_and_position topic_str position =
     (let result = ''unknown_device''; s = topic_split topic_str
      in case list_getitem s position of
           Inr v \<Rightarrow> Inr v
         | Inl KeyError \<Rightarrow> Inr result
         | Inl e \<Rightarrow> Inl e)"

definition device_name_from_topic :: "string \<Rightarrow> sleep_instance \<Rightarrow> string \<Rightarrow> error + string" where
  "device_name_from_topic DEVICE_MACRO self topic_str =
     device_name_from_topic_and_position topic_str
       (int (device_position_in_topic DEVICE_MACRO self))"

text \<open>
  \<^verbatim>\<open>topic_template\<close>: the configured topic with the segment at the macro's position
  replaced by the single-level wildcard \<^verbatim>\<open>+\<close>.
\<close>

definition topic_template :: "string \<Rightarrow> sleep_instance \<Rightarrow> error + string" where
  "topic_template DEVICE_MACRO self =
     (let splitted = topic_split (configured_topic DEVICE_MACRO self)
      in case list_setitem splitted (device_position_in_topic DEVICE_MACRO self) ''+'' of
           Inl e \<Rightarrow> Inl e
         | Inr splitted' \<Rightarrow> Inr (topic_join splitted'))"

section \<open>Entity ids\<close>

definition create_entity_id :: "sleep_instance \<Rightarrow> string \<Rightarrow> string" where
  "create_entity_id self device_name = own_name self @ ''_'' @ device_name"

definition device_name_from_entity_id :: "sleep_instance \<Rightarrow> string \<Rightarrow> string" where
  "device_name_from_entity_id self entity_id =
     replace_first (own_name self @ ''_'') [] entity_id"

section \<open>The sensor registry and the message callback\<close>

text \<open>
  \<^verbatim>\<open>get_sensor\<close>: the sensor stored under the name, or a new object, stored under the
  name before it is returned. The second component says whether it is new.
\<close>

definition get_sensor :: "sleep_instance \<Rightarrow> string \<Rightarrow> (handle \<times> bool) \<times> sleep_instance" where
  "get_sensor self name =
     (case sensors self name of
        Some h \<Rightarrow> ((h, False), self)
      | None \<Rightarrow>
          (let new_sensor = length (heap self)
           in ((new_sensor, True),
               self\<lparr> heap := heap self @ [\<lparr> sensor_entry = entry self, sensor_name = name \<rparr>],
                     sensors := (sensors self)(name \<mapsto> new_sensor) \<rparr>)))"

text \<open>Calling \<^verbatim>\<open>get_sensor\<close> with one name after the other, collecting what it returns.\<close>

fun get_sensor_each :: "sleep_instance \<Rightarrow> string list \<Rightarrow> (handle \<times> bool) list \<times> sleep_instance" where
  "get_sensor_each self [] = ([], self)"
| "get_sensor_each self (n # ns) =
     (let (r, self') = get_sensor self n;
          (rs, self'') = get_sensor_each self' ns
      in (r # rs, self''))"

text \<open>
  The callback \<^verbatim>\<open>message_received\<close> calls the host's \<^verbatim>\<open>async_add_entities\<close> and the
  sensor's \<^verbatim>\<open>process_message\<close>. Both are outside this file; the model records the calls,
  with their arguments, in the order they are made. Whatever \<^verbatim>\<open>process_message\<close> does
  or raises, it is the last thing the callback does, so the calls made and the registry
  do not depend on it. An exception of \<^verbatim>\<open>device_name_from_topic\<close> leaves the callback
  before any call is made.
\<close>

datatype host_call =
  Async_add_entities "handle list" bool
| Process_message handle message

definition message_received ::
  "string \<Rightarrow> sleep_instance \<Rightarrow> message \<Rightarrow> error + (host_call list \<times> sleep_instance)" where
  "message_received DEVICE_MACRO self msg =
     (case device_name_from_topic DEVICE_MACRO self (topic msg) of
        Inl e \<Rightarrow> Inl e
      | Inr device_name \<Rightarrow>
          (let ((target_sensor, is_new), self') = get_sensor self device_name
           in Inr ((if is_new then [Async_add_entities [target_sensor] True] else [])
                     @ [Process_message target_sensor msg],
                   self')))"

text \<open>
  The messaging client delivers one message after the other to the callback. A callback
  that raises has changed nothing; the client goes on with the next message.
\<close>

fun deliver :: "string \<Rightarrow> sleep_instance \<Rightarrow> message list \<Rightarrow> host_call list \<times> sleep_instance" where
  "deliver DEVICE_MACRO self [] = ([], self)"
| "deliver DEVICE_MACRO self (msg # msgs) =
     (case message_received DEVICE_MACRO self msg of
        Inl e \<Rightarrow> deliver DEVICE_MACRO self msgs
      | Inr (calls, self') \<Rightarrow>
          (let (calls', self'') = deliver DEVICE_MACRO self' msgs
           in (calls @ calls', self'')))"

text \<open>What a call says about a sensor: it announces it, or it is any call that names it.\<close>

fun announces :: "handle \<Rightarrow> host_call \<Rightarrow> bool" where
  "announces h (Async_add_entities hs _) = (h \<in> set hs)"
| "announces h (Process_message _ _) = False"

fun concerns :: "handle \<Rightarrow> host_call \<Rightarrow> bool" where
  "concerns h (Async_add_entities hs _) = (h \<in> set hs)"
| "concerns h (Process_message h' _) = (h' = h)"

section \<open>Migration of an old configuration\<close>

text \<open>
  \<^verbatim>\<open>self_update\<close>: one handler covers both lookups of the first \<^verbatim>\<open>try\<close>, so either
  missing key gives both defaults. The host's \<^verbatim>\<open>async_update_entry\<close> replaces the
  entry's options by the new ones.
\<close>

definition self_update :: "string \<Rightarrow> sleep_instance \<Rightarrow> sleep_instance" where
  "self_update DEVICE_MACRO self =
     (let old_options = options (entry self);
          (new_name, new_qos) =
            (case name_key old_options of
               None \<Rightarrow> (own_name self, 0)
             | Some n \<Rightarrow>
                 (case qos_key old_options of
                    None \<Rightarrow> (own_name self, 0)
                  | Some q \<Rightarrow> (n, q)));
          new_topic =
            (case root_topic_key old_options of
               Some t \<Rightarrow> t @ ''/'' @ DEVICE_MACRO
             | None \<Rightarrow>
                 (case topic_key old_options of
                    Some t \<Rightarrow> topic_join (butlast (topic_split t)) @ ''/'' @ DEVICE_MACRO
                  | None \<Rightarrow> configured_topic DEVICE_MACRO self));
          new_options = \<lparr> name_key = Some new_name, qos_key = Some new_qos,
                          topic_template_key = Some new_topic,
                          root_topic_key = None, topic_key = None \<rparr>
      in self\<lparr> entry := (entry self)\<lparr> options := new_options \<rparr>, updating := False \<rparr>)"

text \<open>
  The claim about migrated topics in the spec's words: the old topic's segments without the
  last one, followed by the macro as the last segment.
\<close>

definition spec_migrated_topic :: "string \<Rightarrow> string \<Rightarrow> string" where
  "spec_migrated_topic DEVICE_MACRO t = topic_join (butlast (topic_split t) @ [DEVICE_MACRO])"

section \<open>Configurations used in the examples\<close>

definition no_keys :: config_dict where
  "no_keys = \<lparr> name_key = None, qos_key = None, topic_template_key = None,
               root_topic_key = None, topic_key = None \<rparr>"

definition entry_with_options :: "config_dict \<Rightarrow> ConfigEntry" where
  "entry_with_options d = \<lparr> options = d, data = no_keys \<rparr>"

definition instance_with_template :: "string \<Rightarrow> sleep_instance" where
  "instance_with_template t =
     SleepAsAndroidInstance (entry_with_options (no_keys\<lparr> topic_template_key := Some t \<rparr>))"

definition instance_named :: "string \<Rightarrow> sleep_instance" where
  "instance_named n = SleepAsAndroidInstance (entry_with_options (no_keys\<lparr> name_key := Some n \<rparr>))"

definition msg1 :: message where
  "msg1 = \<lparr> topic = ''home/phone1/state'', payload = ''awake'' \<rparr>"

definition msg2 :: message where
  "msg2 = \<lparr> topic = ''home/phone1/state'', payload = ''sleep'' \<rparr>"

section \<open>The invariant of the registry\<close>

text \<open>
  \<^verbatim>\<open>__sensors\<close> is private and written by \<^verbatim>\<open>get_sensor\<close> only. In every state the
  instance reaches, each stored handle is the address of an object of the store, and no
  two names share a handle.
\<close>

definition registry_ok :: "sleep_instance \<Rightarrow> bool" where
  "registry_ok self \<longleftrightarrow>
     (\<forall>n h. sensors self n = Some h \<longrightarrow> h < length (heap self))
     \<and> inj_on (sensors self) (dom (sensors self))"

section \<open>Facts about splitting and joining\<close>

lemma split_str_nonempty: "split_str c s \<noteq> []"
  by (induction s) (simp_all add: Let_def)

lemma split_str_length_pos: "0 < length (split_str c s)"
  using split_str_nonempty [of c s] by simp

lemma split_str_no_sep: "x \<in> set (split_str c s) \<Longrightarrow> c \<notin> set x"
proof (induction s arbitrary: x)
  case Nil
  then show ?case by simp
next
  case (Cons a s)
  obtain h t where r: "split_str c s = h # t"
    using split_str_nonempty [of c s] by (cases "split_str c s") auto
  show ?case
  proof (cases "a = c")
    case True
    with Cons show ?thesis by (auto simp: Let_def)
  next
    case False
    with Cons.prems r have "x = a # h \<or> x \<in> set t" by (simp add: Let_def)
    then show ?thesis
    proof
      assume "x = a # h"
      moreover have "c \<notin> set h" using Cons.IH [of h] r by simp
      ultimately show ?thesis using False by auto
    next
      assume "x \<in> set t"
      then show ?thesis using Cons.IH [of x] r by simp
    qed
  qed
qed

lemma split_str_append:
  "c \<notin> set a \<Longrightarrow> split_str c (a @ c # b) = a # split_str c b"
  by (induction a) (auto simp: Let_def)

lemma split_str_plain: "c \<notin> set a \<Longrightarrow> split_str c a = [a]"
  by (induction a) (auto simp: Let_def)

lemma split_join:
  "ss \<noteq> [] \<Longrightarrow> \<forall>x \<in> set ss. c \<notin> set x \<Longrightarrow> split_str c (join_str [c] ss) = ss"
proof (induction ss)
  case Nil
  then show ?case by simp
next
  case (Cons s ss)
  show ?case
  proof (cases ss)
    case Nil
    with Cons.prems show ?thesis by (simp add: split_str_plain)
  next
    case (Cons t ts)
    with Cons.IH Cons.prems show ?thesis by (simp add: split_str_append)
  qed
qed

lemma join_split: "join_str [c] (split_str c s) = s"
proof (induction s)
  case Nil
  then show ?case by simp
next
  case (Cons a s)
  obtain h t where r: "split_str c s = h # t"
    using split_str_nonempty [of c s] by (cases "split_str c s") auto
  show ?case
  proof (cases "a = c")
    case True
    with Cons r show ?thesis by (simp add: Let_def)
  next
    case False
    with Cons r show ?thesis by (cases t) (simp_all add: Let_def)
  qed
qed

lemma replace_first_prefix: "replace_first old new (old @ rest) = new @ rest"
proof (cases "old @ rest")
  case Nil
  then show ?thesis by simp
next
  case (Cons c cs)
  have "take (length old) (c # cs) = old" and "drop (length old) (c # cs) = rest"
    using Cons [symmetric] by simp_all
  then show ?thesis using Cons by simp
qed

lemma replace_first_absent: "\<not> occurs_in old s \<Longrightarrow> replace_first old new s = s"
  by (induction s) auto

lemma replace_first_leftmost:
  "\<forall>k < length a. take (length old) (drop k (a @ old @ b)) \<noteq> old \<Longrightarrow>
   replace_first old new (a @ old @ b) = a @ new @ b"
proof (induction a)
  case Nil
  show ?case using replace_first_prefix [of old new b] by simp
next
  case (Cons c a)
  have "take (length old) (drop 0 ((c # a) @ old @ b)) \<noteq> old"
    using Cons.prems by blast
  then have h: "take (length old) (c # a @ old @ b) \<noteq> old" by simp
  have "\<forall>k < length a. take (length old) (drop k (a @ old @ b)) \<noteq> old"
  proof (intro allI impI)
    fix k assume "k < length a"
    then have "Suc k < length (c # a)" by simp
    with Cons.prems have "take (length old) (drop (Suc k) ((c # a) @ old @ b)) \<noteq> old" by blast
    then show "take (length old) (drop k (a @ old @ b)) \<noteq> old" by simp
  qed
  then have "replace_first old new (a @ old @ b) = a @ new @ b" by (rule Cons.IH)
  with h show ?case by simp
qed

lemma join_str_snoc: "ss \<noteq> [] \<Longrightarrow> join_str sep (ss @ [m]) = join_str sep ss @ sep @ m"
proof (induction ss)
  case Nil
  then show ?case by simp
next
  case (Cons s ss)
  then show ?case by (cases ss) simp_all
qed

lemma split_str_two: "c \<in> set s \<Longrightarrow> butlast (split_str c s) \<noteq> []"
proof (induction s)
  case Nil
  then show ?case by simp
next
  case (Cons a s)
  obtain h t where r: "split_str c s = h # t"
    using split_str_nonempty [of c s] by (cases "split_str c s") auto
  show ?case
  proof (cases "a = c")
    case True
    then show ?thesis using r by (simp add: Let_def)
  next
    case False
    with Cons.prems have "c \<in> set s" by simp
    then have "butlast (h # t) \<noteq> []" using Cons.IH r by simp
    then have "t \<noteq> []" by (cases t) simp_all
    then show ?thesis using False r by (simp add: Let_def)
  qed
qed

section \<open>Facts about the position of the macro\<close>

lemma position_loop_found:
  "i < length ps \<Longrightarrow> ps ! i = m \<Longrightarrow> \<forall>j < i. ps ! j \<noteq> m \<Longrightarrow> position_loop m ps r = r + i"
proof (induction ps arbitrary: i r)
  case Nil
  then show ?case by simp
next
  case (Cons p ps)
  show ?case
  proof (cases i)
    case 0
    with Cons.prems show ?thesis by simp
  next
    case (Suc k)
    have "p \<noteq> m" using Cons.prems(3) Suc by force
    moreover have "position_loop m ps (r + 1) = r + 1 + k"
    proof (rule Cons.IH)
      show "k < length ps" using Cons.prems(1) Suc by simp
      show "ps ! k = m" using Cons.prems(2) Suc by simp
      show "\<forall>j < k. ps ! j \<noteq> m"
      proof (intro allI impI)
        fix j assume "j < k"
        then have "Suc j < i" using Suc by simp
        with Cons.prems(3) have "(p # ps) ! Suc j \<noteq> m" by blast
        then show "ps ! j \<noteq> m" by simp
      qed
    qed
    ultimately show ?thesis using Suc by simp
  qed
qed

lemma position_loop_absent: "m \<notin> set ps \<Longrightarrow> position_loop m ps r = r + length ps"
  by (induction ps arbitrary: r) auto

lemma configured_topic_of_template [simp]:
  "configured_topic m (instance_with_template t) = t"
  by (simp add: configured_topic_def instance_with_template_def SleepAsAndroidInstance_def
      entry_with_options_def no_keys_def get_from_config_def)

section \<open>Extracting the device name from a topic\<close>

lemma device_name_in_range:
  "0 \<le> i \<Longrightarrow> i < int (length (topic_split t)) \<Longrightarrow>
   device_name_from_topic_and_position t i = Inr (topic_split t ! nat i)"
  by (simp add: device_name_from_topic_and_position_def list_getitem_def Let_def)

lemma device_name_out_of_range:
  "int (length (topic_split t)) \<le> i \<Longrightarrow>
   device_name_from_topic_and_position t i = Inl IndexError"
  by (simp add: device_name_from_topic_and_position_def list_getitem_def Let_def)

text \<open>
  Claim C1: extracting the device name returns the segment at index \<open>i\<close> when the topic
  has at least \<open>i + 1\<close> segments, returns \<^verbatim>\<open>"unknown_device"\<close> when it has fewer, and
  never raises. The first part holds (\<open>device_name_in_range\<close>). The second does not: a
  list index out of range raises \<^verbatim>\<open>IndexError\<close>, and the handler that should keep the
  sentinel catches \<^verbatim>\<open>KeyError\<close>. For the topic \<^verbatim>\<open>a\<close> (one segment) and the position 1
  the function raises \<^verbatim>\<open>IndexError\<close> and returns no sentinel.
\<close>

theorem device_name_short_topic_raises:
  "length (topic_split ''a'') = 1
   \<and> device_name_from_topic_and_position ''a'' 1 = Inl IndexError
   \<and> device_name_from_topic_and_position ''a'' 1 \<noteq> Inr ''unknown_device''"
  by (simp add: device_name_from_topic_and_position_def list_getitem_def Let_def)

section \<open>Deriving the position and the wildcard topic\<close>

text \<open>
  Claim C2, as stated: when no segment of the configured topic equals the macro, the
  position is 0 and the wildcard topic is the configured topic with segment 0 replaced.
  It fails for the configured topic \<^verbatim>\<open>home/state\<close>: the loop counts both segments, the
  position is 2, and the assignment to \<^verbatim>\<open>splitted[2]\<close> raises \<^verbatim>\<open>IndexError\<close>, so no
  wildcard topic (in particular not \<^verbatim>\<open>+/state\<close>) is returned.
\<close>

theorem placeholder_absent_position_not_zero:
  "''{device}'' \<notin> set (topic_split (configured_topic ''{device}'' (instance_with_template ''home/state'')))
   \<and> device_position_in_topic ''{device}'' (instance_with_template ''home/state'') = 2
   \<and> device_position_in_topic ''{device}'' (instance_with_template ''home/state'') \<noteq> 0
   \<and> topic_template ''{device}'' (instance_with_template ''home/state'') = Inl IndexError
   \<and> topic_template ''{device}'' (instance_with_template ''home/state'')
       \<noteq> Inr (topic_join ((topic_split ''home/state'')[0 := ''+'']))"
  by (simp add: device_position_in_topic_def topic_template_def list_setitem_def Let_def)

text \<open>
  Claim C2, amended: when no segment of the configured topic equals the macro, the position
  is the number of segments of the configured topic (one past the last segment, so at least
  1 and never 0), and deriving the wildcard topic returns no topic: the index is out of
  range and \<^verbatim>\<open>IndexError\<close> is raised.
\<close>

theorem placeholder_absent_position_is_segment_count:
  assumes "DEVICE_MACRO \<notin> set (topic_split (configured_topic DEVICE_MACRO self))"
  shows "device_position_in_topic DEVICE_MACRO self
           = length (topic_split (configured_topic DEVICE_MACRO self))
         \<and> 0 < device_position_in_topic DEVICE_MACRO self
         \<and> topic_template DEVICE_MACRO self = Inl IndexError"
proof -
  have p: "device_position_in_topic DEVICE_MACRO self
             = length (topic_split (configured_topic DEVICE_MACRO self))"
    using position_loop_absent [OF assms, of 0] by (simp add: device_position_in_topic_def)
  moreover have "0 < device_position_in_topic DEVICE_MACRO self"
    using p split_str_length_pos by simp
  moreover have "topic_template DEVICE_MACRO self = Inl IndexError"
    using p by (simp add: topic_template_def list_setitem_def Let_def)
  ultimately show ?thesis by blast
qed

theorem placeholder_absent_position_is_segment_count_witness:
  "''{device}'' \<notin> set (topic_split (configured_topic ''{device}'' (instance_with_template ''a/b/c'')))
   \<and> device_position_in_topic ''{device}'' (instance_with_template ''a/b/c'') = 3
   \<and> topic_template ''{device}'' (instance_with_template ''a/b/c'') = Inl IndexError"
  using placeholder_absent_position_is_segment_count
          [of "''{device}''" "instance_with_template ''a/b/c''"]
  by (simp add: Let_def)

text \<open>
  Claim C3: when the segment at index \<open>i\<close> of the configured topic is the macro and no
  earlier segment is, the position is \<open>i\<close>; the wildcard topic is the configured topic's
  segments with the one at \<open>i\<close> replaced by \<^verbatim>\<open>+\<close>, joined again, and splitting it gives
  exactly these segments, so their number is unchanged. Position and wildcard topic depend
  on the configured topic only: any instance with the same configured topic derives the
  same two values.
\<close>

theorem placeholder_found_wildcard:
  assumes "i < length (topic_split (configured_topic DEVICE_MACRO self))"
    and "topic_split (configured_topic DEVICE_MACRO self) ! i = DEVICE_MACRO"
    and "\<forall>j < i. topic_split (configured_topic DEVICE_MACRO self) ! j \<noteq> DEVICE_MACRO"
  shows "device_position_in_topic DEVICE_MACRO self = i
         \<and> (\<exists>w. topic_template DEVICE_MACRO self = Inr w
                \<and> w = topic_join ((topic_split (configured_topic DEVICE_MACRO self))[i := ''+''])
                \<and> topic_split w = (topic_split (configured_topic DEVICE_MACRO self))[i := ''+'']
                \<and> length (topic_split w) = length (topic_split (configured_topic DEVICE_MACRO self)))
         \<and> (\<forall>other. configured_topic DEVICE_MACRO other = configured_topic DEVICE_MACRO self
               \<longrightarrow> device_position_in_topic DEVICE_MACRO other = i
                 \<and> topic_template DEVICE_MACRO other = topic_template DEVICE_MACRO self)"
proof -
  let ?ss = "topic_split (configured_topic DEVICE_MACRO self)"
  have pos: "device_position_in_topic DEVICE_MACRO self = i"
    using position_loop_found [OF assms, of 0] by (simp add: device_position_in_topic_def)
  have tt: "topic_template DEVICE_MACRO self = Inr (topic_join (?ss[i := ''+'']))"
    using pos assms(1) by (simp add: topic_template_def list_setitem_def Let_def)
  have "\<forall>x \<in> set (?ss[i := ''+'']). CHR ''/'' \<notin> set x"
  proof
    fix x assume "x \<in> set (?ss[i := ''+''])"
    then have "x = ''+'' \<or> x \<in> set ?ss"
      using set_update_subset_insert [of ?ss i "''+''"] by auto
    then show "CHR ''/'' \<notin> set x" using split_str_no_sep by auto
  qed
  moreover have "?ss[i := ''+''] \<noteq> []" using assms(1) by auto
  ultimately have sp: "topic_split (topic_join (?ss[i := ''+''])) = ?ss[i := ''+'']"
    using split_join [of "?ss[i := ''+'']" "CHR ''/''"] by simp
  have other: "\<forall>other. configured_topic DEVICE_MACRO other = configured_topic DEVICE_MACRO self
               \<longrightarrow> device_position_in_topic DEVICE_MACRO other = i
                 \<and> topic_template DEVICE_MACRO other = topic_template DEVICE_MACRO self"
    using pos by (simp add: device_position_in_topic_def topic_template_def)
  have "\<exists>w. topic_template DEVICE_MACRO self = Inr w
           \<and> w = topic_join (?ss[i := ''+''])
           \<and> topic_split w = ?ss[i := ''+'']
           \<and> length (topic_split w) = length ?ss"
    using tt sp by simp
  with pos other show ?thesis by blast
qed

theorem placeholder_found_wildcard_witness:
  "(1::nat) < length (topic_split (configured_topic ''{device}'' (instance_with_template ''home/{device}/state'')))
   \<and> topic_split (configured_topic ''{device}'' (instance_with_template ''home/{device}/state'')) ! 1
       = ''{device}''
   \<and> topic_split (configured_topic ''{device}'' (instance_with_template ''home/{device}/state'')) ! 0
       \<noteq> ''{device}''
   \<and> device_position_in_topic ''{device}'' (instance_with_template ''home/{device}/state'') = 1
   \<and> topic_template ''{device}'' (instance_with_template ''home/{device}/state'')
       = Inr ''home/+/state''
   \<and> topic_split ''home/+/state'' = [''home'', ''+'', ''state'']"
  using placeholder_found_wildcard
          [of 1 "''{device}''" "instance_with_template ''home/{device}/state''"]
  by (simp add: Let_def)

section \<open>The sensor registry\<close>

lemma registry_ok_init: "registry_ok (SleepAsAndroidInstance e)"
  by (simp add: registry_ok_def SleepAsAndroidInstance_def)

lemma get_sensor_stored:
  "get_sensor self n = ((h, b), self') \<Longrightarrow> sensors self' n = Some h"
  by (auto simp: get_sensor_def Let_def split: option.splits)

lemma get_sensor_known:
  "sensors self n = Some h \<Longrightarrow> get_sensor self n = ((h, False), self)"
  by (simp add: get_sensor_def)

lemma get_sensor_keeps:
  "get_sensor self n = (r, self') \<Longrightarrow> sensors self m = Some h \<Longrightarrow> sensors self' m = Some h"
  by (auto simp: get_sensor_def Let_def split: option.splits)

lemma get_sensor_others:
  "get_sensor self n = (r, self') \<Longrightarrow> m \<noteq> n \<Longrightarrow> sensors self' m = sensors self m"
  by (auto simp: get_sensor_def Let_def split: option.splits)

lemma get_sensor_entry:
  "get_sensor self n = (r, self') \<Longrightarrow> entry self' = entry self"
  by (auto simp: get_sensor_def Let_def split: option.splits)

lemma get_sensor_heap:
  "registry_ok self \<Longrightarrow> get_sensor self n = ((h, b), self') \<Longrightarrow>
   h < length (heap self') \<and> length (heap self) \<le> length (heap self')
   \<and> (b \<longrightarrow> h = length (heap self)) \<and> (\<not> b \<longrightarrow> sensors self n = Some h)"
  by (auto simp: get_sensor_def registry_ok_def Let_def split: option.splits)

lemma get_sensor_ok:
  assumes "registry_ok self" and "get_sensor self n = (r, self')"
  shows "registry_ok self'"
proof (cases "sensors self n")
  case (Some h)
  with assms show ?thesis by (simp add: get_sensor_def)
next
  case None
  let ?h = "length (heap self)"
  from None assms(2) have s: "sensors self' = (sensors self)(n \<mapsto> ?h)"
    and hp: "length (heap self') = Suc ?h"
    by (auto simp: get_sensor_def Let_def)
  have below: "\<forall>m h. sensors self m = Some h \<longrightarrow> h < ?h"
    using assms(1) by (simp add: registry_ok_def)
  have "\<forall>m h. sensors self' m = Some h \<longrightarrow> h < length (heap self')"
    using below s hp by (auto simp: less_Suc_eq)
  moreover have "inj_on (sensors self') (dom (sensors self'))"
  proof (rule inj_onI)
    fix x y
    assume x: "x \<in> dom (sensors self')" and y: "y \<in> dom (sensors self')"
      and e: "sensors self' x = sensors self' y"
    show "x = y"
    proof (cases "x = n \<or> y = n")
      case True
      show ?thesis
      proof (rule ccontr)
        assume ne: "x \<noteq> y"
        with True e s have "\<exists>m. sensors self m = Some ?h" by (auto split: if_splits)
        with below show False by blast
      qed
    next
      case False
      with x y e s have "x \<in> dom (sensors self)" "y \<in> dom (sensors self)"
        "sensors self x = sensors self y" by auto
      with assms(1) show ?thesis by (auto simp: registry_ok_def dest: inj_onD)
    qed
  qed
  ultimately show ?thesis by (simp add: registry_ok_def)
qed

lemma get_sensor_each_ok:
  "registry_ok self \<Longrightarrow> get_sensor_each self ns = (rs, self') \<Longrightarrow> registry_ok self'"
proof (induction ns arbitrary: self rs)
  case Nil
  then show ?case by simp
next
  case (Cons n ns)
  obtain r s1 where g: "get_sensor self n = (r, s1)" by (cases "get_sensor self n")
  obtain rs1 s2 where e: "get_sensor_each s1 ns = (rs1, s2)" by (cases "get_sensor_each s1 ns")
  from Cons.prems(2) g e have "self' = s2" by simp
  moreover have "registry_ok s1" using Cons.prems(1) g by (rule get_sensor_ok)
  ultimately show ?case using Cons.IH e by blast
qed

lemma get_sensor_each_keeps:
  "get_sensor_each self ns = (rs, self') \<Longrightarrow> sensors self m = Some h \<Longrightarrow> sensors self' m = Some h"
proof (induction ns arbitrary: self rs)
  case Nil
  then show ?case by simp
next
  case (Cons n ns)
  obtain r s1 where g: "get_sensor self n = (r, s1)" by (cases "get_sensor self n")
  obtain rs1 s2 where e: "get_sensor_each s1 ns = (rs1, s2)" by (cases "get_sensor_each s1 ns")
  from Cons.prems(1) g e have "self' = s2" by simp
  moreover have "sensors s1 m = Some h" using g Cons.prems(2) by (rule get_sensor_keeps)
  ultimately show ?case using Cons.IH e by blast
qed

lemma get_sensor_each_stored:
  "get_sensor_each self ns = (rs, self') \<Longrightarrow> map (sensors self') ns = map (\<lambda>r. Some (fst r)) rs"
proof (induction ns arbitrary: self rs)
  case Nil
  then show ?case by simp
next
  case (Cons n ns)
  obtain h b s1 where g: "get_sensor self n = ((h, b), s1)"
    by (cases "get_sensor self n") auto
  obtain rs1 s2 where e: "get_sensor_each s1 ns = (rs1, s2)" by (cases "get_sensor_each s1 ns")
  from Cons.prems g e have r: "self' = s2" "rs = (h, b) # rs1" by simp_all
  have "sensors s1 n = Some h" using g by (rule get_sensor_stored)
  then have "sensors s2 n = Some h" using e get_sensor_each_keeps by blast
  moreover have "map (sensors s2) ns = map (\<lambda>r. Some (fst r)) rs1"
    using Cons.IH e r(1) by blast
  ultimately show ?case using r by simp
qed

lemma get_sensor_each_distinct:
  assumes "registry_ok self" and "distinct ns" and "get_sensor_each self ns = (rs, self')"
  shows "distinct (map fst rs) \<and> length rs = length ns"
proof -
  have ok: "registry_ok self'" using assms(1,3) by (rule get_sensor_each_ok)
  have m: "map (sensors self') ns = map (\<lambda>r. Some (fst r)) rs"
    using assms(3) by (rule get_sensor_each_stored)
  then have len: "length rs = length ns" using map_eq_imp_length_eq by fastforce
  have "set ns \<subseteq> dom (sensors self')"
  proof
    fix n assume "n \<in> set ns"
    then have "sensors self' n \<in> set (map (sensors self') ns)" by simp
    with m show "n \<in> dom (sensors self')" by auto
  qed
  then have "inj_on (sensors self') (set ns)"
    using ok by (auto simp: registry_ok_def intro: inj_on_subset)
  with assms(2) have "distinct (map (sensors self') ns)" by (simp add: distinct_map)
  with m have "distinct (map Some (map fst rs))" by (simp add: comp_def)
  then have "distinct (map fst rs)" using distinct_map [of Some "map fst rs"] by blast
  with len show ?thesis by simp
qed

text \<open>
  Claim C4: for every state of the instance and every name, a second call of
  \<^verbatim>\<open>get_sensor\<close> with the same name returns the handle of the first call with the flag
  \<open>False\<close>, and leaves the state as the first call left it. In every state of the
  registry (the states a new instance reaches by earlier calls of \<^verbatim>\<open>get_sensor\<close>),
  calls with pairwise distinct names return as many pairwise distinct handles.
\<close>

theorem get_sensor_twice_and_distinct:
  "fst (get_sensor (snd (get_sensor self name)) name) = (fst (fst (get_sensor self name)), False)
   \<and> snd (get_sensor (snd (get_sensor self name)) name) = snd (get_sensor self name)
   \<and> (distinct names \<longrightarrow>
        distinct (map fst (fst (get_sensor_each
                    (snd (get_sensor_each (SleepAsAndroidInstance config_entry) earlier)) names)))
        \<and> length (fst (get_sensor_each
                    (snd (get_sensor_each (SleepAsAndroidInstance config_entry) earlier)) names))
            = length names)"
proof -
  obtain h b s1 where g: "get_sensor self name = ((h, b), s1)"
    by (cases "get_sensor self name") auto
  then have "sensors s1 name = Some h" by (rule get_sensor_stored)
  then have "get_sensor s1 name = ((h, False), s1)" by (rule get_sensor_known)
  with g have twice: "fst (get_sensor (snd (get_sensor self name)) name)
              = (fst (fst (get_sensor self name)), False)
      \<and> snd (get_sensor (snd (get_sensor self name)) name) = snd (get_sensor self name)"
    by simp
  let ?s = "snd (get_sensor_each (SleepAsAndroidInstance config_entry) earlier)"
  have "registry_ok ?s"
    using registry_ok_init get_sensor_each_ok [of "SleepAsAndroidInstance config_entry" earlier]
    by (cases "get_sensor_each (SleepAsAndroidInstance config_entry) earlier") auto
  then have "distinct names \<longrightarrow>
        distinct (map fst (fst (get_sensor_each ?s names)))
        \<and> length (fst (get_sensor_each ?s names)) = length names"
    using get_sensor_each_distinct [of ?s names]
    by (cases "get_sensor_each ?s names") auto
  with twice show ?thesis by blast
qed

theorem get_sensor_twice_and_distinct_witness:
  "distinct [''phone1'', ''phone2'', ''tablet'']
   \<and> map fst (fst (get_sensor_each
         (snd (get_sensor_each (SleepAsAndroidInstance (entry_with_options no_keys)) [''phone2'']))
         [''phone1'', ''phone2'', ''tablet''])) = [1, 0, 2]
   \<and> distinct (map fst (fst (get_sensor_each
         (snd (get_sensor_each (SleepAsAndroidInstance (entry_with_options no_keys)) [''phone2'']))
         [''phone1'', ''phone2'', ''tablet''])))
   \<and> fst (get_sensor (snd (get_sensor (SleepAsAndroidInstance (entry_with_options no_keys))
                               ''phone1'')) ''phone1'') = (0, False)"
  using get_sensor_twice_and_distinct
          [of "SleepAsAndroidInstance (entry_with_options no_keys)" "''phone1''"
              "[''phone1'', ''phone2'', ''tablet'']" "entry_with_options no_keys" "[''phone2'']"]
  by (simp add: get_sensor_def SleepAsAndroidInstance_def Let_def)

section \<open>The message callback\<close>

lemma device_name_from_topic_entry:
  "entry self' = entry self \<Longrightarrow>
   device_name_from_topic m self' t = device_name_from_topic m self t"
  by (simp add: device_name_from_topic_def device_position_in_topic_def configured_topic_def)

lemma message_received_Inl:
  assumes "message_received m self msg = Inl e"
  shows "device_name_from_topic m self (topic msg) = Inl e"
proof (cases "device_name_from_topic m self (topic msg)")
  case (Inl e')
  with assms show ?thesis by (simp add: message_received_def)
next
  case (Inr d)
  obtain h b s1 where "get_sensor self d = ((h, b), s1)"
    by (cases "get_sensor self d") auto
  with Inr assms show ?thesis by (simp add: message_received_def)
qed

lemma message_received_Inr:
  assumes "message_received m self msg = Inr (calls, self')"
  shows "\<exists>d h b. device_name_from_topic m self (topic msg) = Inr d
          \<and> get_sensor self d = ((h, b), self')
          \<and> calls = (if b then [Async_add_entities [h] True] else []) @ [Process_message h msg]"
proof (cases "device_name_from_topic m self (topic msg)")
  case (Inl e')
  with assms show ?thesis by (simp add: message_received_def)
next
  case (Inr d)
  obtain h b s1 where g: "get_sensor self d = ((h, b), s1)"
    by (cases "get_sensor self d") auto
  with Inr assms have "s1 = self'"
    and "calls = (if b then [Async_add_entities [h] True] else []) @ [Process_message h msg]"
    by (simp_all add: message_received_def)
  with Inr g show ?thesis by blast
qed

lemma deliver_known_sensor:
  "registry_ok self \<Longrightarrow> sensors self d = Some h \<Longrightarrow> deliver m self msgs = (calls, self') \<Longrightarrow>
   sensors self' d = Some h \<and> (\<forall>c \<in> set calls. \<not> announces h c)"
proof (induction msgs arbitrary: self calls)
  case Nil
  then show ?case by simp
next
  case (Cons msg msgs)
  show ?case
  proof (cases "message_received m self msg")
    case (Inl e)
    with Cons.prems(3) have "deliver m self msgs = (calls, self')" by simp
    with Cons.IH Cons.prems(1,2) show ?thesis by blast
  next
    case (Inr r)
    obtain calls0 s1 where r: "r = (calls0, s1)" by (cases r)
    obtain calls1 s2 where d: "deliver m s1 msgs = (calls1, s2)" by (cases "deliver m s1 msgs")
    from Cons.prems(3) Inr r d have res: "calls = calls0 @ calls1" "self' = s2" by simp_all
    from Inr r obtain d0 h0 b where
      g: "get_sensor self d0 = ((h0, b), s1)"
      and c0: "calls0 = (if b then [Async_add_entities [h0] True] else []) @ [Process_message h0 msg]"
      using message_received_Inr by blast
    have ok1: "registry_ok s1" using Cons.prems(1) g by (rule get_sensor_ok)
    have k1: "sensors s1 d = Some h" using g Cons.prems(2) by (rule get_sensor_keeps)
    have "h < length (heap self)" using Cons.prems(1,2) by (simp add: registry_ok_def)
    moreover have "b \<longrightarrow> h0 = length (heap self)"
      using get_sensor_heap [OF Cons.prems(1) g] by simp
    ultimately have "\<forall>c \<in> set calls0. \<not> announces h c" using c0 by auto
    moreover have "sensors s2 d = Some h \<and> (\<forall>c \<in> set calls1. \<not> announces h c)"
      using Cons.IH [OF ok1 k1] d res(2) by blast
    ultimately show ?thesis using res by auto
  qed
qed

lemma deliver_first_message:
  "registry_ok self \<Longrightarrow> sensors self d = None \<Longrightarrow>
   find (\<lambda>msg. device_name_from_topic m self (topic msg) = Inr d) msgs = Some first_msg \<Longrightarrow>
   deliver m self msgs = (calls, self') \<Longrightarrow>
   \<exists>h pre post. sensors self' d = Some h \<and> length (heap self) \<le> h
      \<and> calls = pre @ Async_add_entities [h] True # Process_message h first_msg # post
      \<and> (\<forall>c \<in> set pre. \<not> concerns h c) \<and> (\<forall>c \<in> set post. \<not> announces h c)"
proof (induction msgs arbitrary: self calls)
  case Nil
  then show ?case by simp
next
  case (Cons msg msgs)
  show ?case
  proof (cases "message_received m self msg")
    case (Inl e)
    then have "device_name_from_topic m self (topic msg) = Inl e" by (rule message_received_Inl)
    with Cons.prems(3)
    have f: "find (\<lambda>msg. device_name_from_topic m self (topic msg) = Inr d) msgs = Some first_msg"
      by simp
    from Inl Cons.prems(4) have "deliver m self msgs = (calls, self')" by simp
    then show ?thesis by (rule Cons.IH [OF Cons.prems(1,2) f])
  next
    case (Inr r)
    obtain calls0 s1 where r: "r = (calls0, s1)" by (cases r)
    obtain calls1 s2 where dl: "deliver m s1 msgs = (calls1, s2)" by (cases "deliver m s1 msgs")
    from Cons.prems(4) Inr r dl have res: "calls = calls0 @ calls1" "self' = s2" by simp_all
    from dl res(2) have dl': "deliver m s1 msgs = (calls1, self')" by simp
    from Inr r have "message_received m self msg = Inr (calls0, s1)" by simp
    from message_received_Inr [OF this] obtain d0 h0 b where
      n0: "device_name_from_topic m self (topic msg) = Inr d0"
      and g: "get_sensor self d0 = ((h0, b), s1)"
      and c0: "calls0 = (if b then [Async_add_entities [h0] True] else []) @ [Process_message h0 msg]"
      by blast
    have ok1: "registry_ok s1" using Cons.prems(1) g by (rule get_sensor_ok)
    have hp: "h0 < length (heap s1)" "length (heap self) \<le> length (heap s1)"
      "b \<longrightarrow> h0 = length (heap self)" "\<not> b \<longrightarrow> sensors self d0 = Some h0"
      using get_sensor_heap [OF Cons.prems(1) g] by simp_all
    show ?thesis
    proof (cases "d0 = d")
      case True
      with n0 Cons.prems(3) have fm: "first_msg = msg" by simp
      from True hp(4) Cons.prems(2) have b: "b" by (cases b) simp_all
      with hp(3) have h0: "h0 = length (heap self)" by simp
      have "sensors s1 d0 = Some h0" using g by (rule get_sensor_stored)
      then have "sensors s1 d = Some h0" using True by simp
      from deliver_known_sensor [OF ok1 this dl']
      have k: "sensors self' d = Some h0" "\<forall>c \<in> set calls1. \<not> announces h0 c" by simp_all
      have c: "calls = [] @ Async_add_entities [h0] True # Process_message h0 first_msg # calls1"
        using res(1) c0 b fm by simp
      show ?thesis
      proof (intro exI conjI)
        show "sensors self' d = Some h0" by (rule k(1))
        show "length (heap self) \<le> h0" using h0 by simp
        show "calls = [] @ Async_add_entities [h0] True # Process_message h0 first_msg # calls1"
          by (rule c)
        show "\<forall>c \<in> set []. \<not> concerns h0 c" by simp
        show "\<forall>c \<in> set calls1. \<not> announces h0 c" by (rule k(2))
      qed
    next
      case False
      with n0 Cons.prems(3)
      have f0: "find (\<lambda>msg. device_name_from_topic m self (topic msg) = Inr d) msgs = Some first_msg"
        by simp
      have "entry s1 = entry self" using g by (rule get_sensor_entry)
      then have eq: "(\<lambda>msg. device_name_from_topic m s1 (topic msg) = Inr d)
                   = (\<lambda>msg. device_name_from_topic m self (topic msg) = Inr d)"
        using device_name_from_topic_entry [of s1 self m] by simp
      have f1: "find (\<lambda>msg. device_name_from_topic m s1 (topic msg) = Inr d) msgs = Some first_msg"
        unfolding eq by (rule f0)
      have "sensors s1 d = sensors self d" using g False by (rule get_sensor_others [OF _ not_sym])
      then have none1: "sensors s1 d = None" using Cons.prems(2) by simp
      from Cons.IH [OF ok1 none1 f1 dl'] obtain h pre post where
        ih: "sensors self' d = Some h" "length (heap s1) \<le> h"
          "calls1 = pre @ Async_add_entities [h] True # Process_message h first_msg # post"
          "\<forall>c \<in> set pre. \<not> concerns h c" "\<forall>c \<in> set post. \<not> announces h c"
        by blast
      have "h0 \<noteq> h" using hp(1) ih(2) by simp
      then have "\<forall>c \<in> set calls0. \<not> concerns h c" using c0 by simp
      with ih(4) have p: "\<forall>c \<in> set (calls0 @ pre). \<not> concerns h c" by auto
      have c: "calls = (calls0 @ pre) @ Async_add_entities [h] True # Process_message h first_msg # post"
        using res(1) ih(3) by simp
      have l: "length (heap self) \<le> h" using hp(2) ih(2) by simp
      show ?thesis
      proof (intro exI conjI)
        show "sensors self' d = Some h" by (rule ih(1))
        show "length (heap self) \<le> h" by (rule l)
        show "calls = (calls0 @ pre) @ Async_add_entities [h] True # Process_message h first_msg # post"
          by (rule c)
        show "\<forall>c \<in> set (calls0 @ pre). \<not> concerns h c" by (rule p)
        show "\<forall>c \<in> set post. \<not> announces h c" by (rule ih(5))
      qed
    qed
  qed
qed

lemma concerns_announces: "announces h c \<Longrightarrow> concerns h c"
  by (cases c) simp_all

text \<open>
  Claim C5: take the messages a new instance receives, and a device name that the callback
  extracts from one of them; \<open>first_msg\<close> is the first such message. Then the registry
  ends with a sensor \<open>h\<close> for the name, and the calls made are: calls that do not name
  \<open>h\<close>, then the announcement of \<open>h\<close> to \<^verbatim>\<open>async_add_entities\<close>, directly followed by
  \<^verbatim>\<open>process_message\<close> of \<open>h\<close> with \<open>first_msg\<close>, then calls none of which announces
  \<open>h\<close>. So \<open>h\<close> is announced exactly once, before anything is forwarded to it.
\<close>

theorem sensor_announced_once:
  assumes "find (\<lambda>msg. device_name_from_topic DEVICE_MACRO (SleepAsAndroidInstance config_entry)
                         (topic msg) = Inr device_name) msgs = Some first_msg"
  shows "\<exists>h pre post.
           sensors (snd (deliver DEVICE_MACRO (SleepAsAndroidInstance config_entry) msgs)) device_name
             = Some h
         \<and> fst (deliver DEVICE_MACRO (SleepAsAndroidInstance config_entry) msgs)
             = pre @ Async_add_entities [h] True # Process_message h first_msg # post
         \<and> (\<forall>c \<in> set pre. \<not> concerns h c)
         \<and> (\<forall>c \<in> set post. \<not> announces h c)
         \<and> length (filter (announces h)
               (fst (deliver DEVICE_MACRO (SleepAsAndroidInstance config_entry) msgs))) = 1"
proof -
  let ?s = "SleepAsAndroidInstance config_entry"
  obtain calls s' where d: "deliver DEVICE_MACRO ?s msgs = (calls, s')"
    by (cases "deliver DEVICE_MACRO ?s msgs")
  have "sensors ?s device_name = None" by (simp add: SleepAsAndroidInstance_def)
  from deliver_first_message [OF registry_ok_init this assms d]
  obtain h pre post where
    r: "sensors s' device_name = Some h"
       "calls = pre @ Async_add_entities [h] True # Process_message h first_msg # post"
       "\<forall>c \<in> set pre. \<not> concerns h c" "\<forall>c \<in> set post. \<not> announces h c"
    by blast
  have "filter (announces h) pre = []" using r(3) concerns_announces by (auto simp: filter_empty_conv)
  moreover have "filter (announces h) post = []" using r(4) by (auto simp: filter_empty_conv)
  ultimately have "length (filter (announces h) calls) = 1" using r(2) by simp
  with r have "sensors s' device_name = Some h
         \<and> calls = pre @ Async_add_entities [h] True # Process_message h first_msg # post
         \<and> (\<forall>c \<in> set pre. \<not> concerns h c)
         \<and> (\<forall>c \<in> set post. \<not> announces h c)
         \<and> length (filter (announces h) calls) = 1"
    by blast
  then show ?thesis unfolding d fst_conv snd_conv by blast
qed

theorem sensor_announced_once_witness:
  "find (\<lambda>msg. device_name_from_topic ''{device}''
           (SleepAsAndroidInstance (entry_with_options
              (no_keys\<lparr> topic_template_key := Some ''home/{device}/state'' \<rparr>)))
           (topic msg) = Inr ''phone1'') [msg1, msg2] = Some msg1
   \<and> fst (deliver ''{device}''
           (SleepAsAndroidInstance (entry_with_options
              (no_keys\<lparr> topic_template_key := Some ''home/{device}/state'' \<rparr>)))
           [msg1, msg2])
       = [Async_add_entities [0] True, Process_message 0 msg1, Process_message 0 msg2]
   \<and> (\<exists>h pre post.
         sensors (snd (deliver ''{device}''
           (SleepAsAndroidInstance (entry_with_options
              (no_keys\<lparr> topic_template_key := Some ''home/{device}/state'' \<rparr>)))
           [msg1, msg2])) ''phone1'' = Some h
         \<and> fst (deliver ''{device}''
           (SleepAsAndroidInstance (entry_with_options
              (no_keys\<lparr> topic_template_key := Some ''home/{device}/state'' \<rparr>)))
           [msg1, msg2])
             = pre @ Async_add_entities [h] True # Process_message h msg1 # post
         \<and> (\<forall>c \<in> set pre. \<not> concerns h c)
         \<and> (\<forall>c \<in> set post. \<not> announces h c)
         \<and> length (filter (announces h) (fst (deliver ''{device}''
           (SleepAsAndroidInstance (entry_with_options
              (no_keys\<lparr> topic_template_key := Some ''home/{device}/state'' \<rparr>)))
           [msg1, msg2]))) = 1)"
proof -
  let ?s = "SleepAsAndroidInstance (entry_with_options
              (no_keys\<lparr> topic_template_key := Some ''home/{device}/state'' \<rparr>))"
  have n: "device_name_from_topic ''{device}'' ?s ''home/phone1/state'' = Inr ''phone1''"
    by (simp add: device_name_from_topic_def device_position_in_topic_def configured_topic_def
        device_name_from_topic_and_position_def list_getitem_def get_from_config_def
        SleepAsAndroidInstance_def entry_with_options_def no_keys_def Let_def)
  have f: "find (\<lambda>msg. device_name_from_topic ''{device}'' ?s (topic msg) = Inr ''phone1'')
             [msg1, msg2] = Some msg1"
    using n by (simp add: msg1_def)
  have d: "fst (deliver ''{device}'' ?s [msg1, msg2])
       = [Async_add_entities [0] True, Process_message 0 msg1, Process_message 0 msg2]"
    by (simp add: message_received_def get_sensor_def device_name_from_topic_def
        device_position_in_topic_def configured_topic_def
        device_name_from_topic_and_position_def list_getitem_def get_from_config_def
        SleepAsAndroidInstance_def entry_with_options_def no_keys_def Let_def msg1_def msg2_def)
  from f d sensor_announced_once [OF f] show ?thesis by blast
qed

section \<open>Entity ids and device names\<close>

lemma own_name_instance_named [simp]: "own_name (instance_named n) = n"
  by (simp add: instance_named_def SleepAsAndroidInstance_def entry_with_options_def
      no_keys_def get_from_config_def)

text \<open>
  Claim C6: \<^verbatim>\<open>device_name_from_entity_id\<close> after \<^verbatim>\<open>create_entity_id\<close> returns the
  device name it started from. The entity id begins with the instance's name and the
  underscore, so the leftmost occurrence is this prefix; the round trip holds for every
  device name, those the claim restricts itself to included.
\<close>

theorem entity_id_round_trip: "device_name_from_entity_id self (create_entity_id self device_name) = device_name"
  using replace_first_prefix [of "own_name self @ ''_''" "[]" device_name]
  by (simp add: device_name_from_entity_id_def create_entity_id_def)

text \<open>
  Claim C7, as stated: an entity id that does not begin with the name and the underscore is
  returned unchanged. It fails for the instance named \<^verbatim>\<open>bed\<close> and the entity id
  \<^verbatim>\<open>my_bed_phone\<close>: the id does not begin with \<^verbatim>\<open>bed_\<close>, and the occurrence inside
  it is removed.
\<close>

theorem entity_id_inner_occurrence_removed:
  "take (length (''bed'' @ ''_'')) ''my_bed_phone'' \<noteq> ''bed'' @ ''_''
   \<and> device_name_from_entity_id (instance_named ''bed'') ''my_bed_phone'' = ''my_phone''
   \<and> device_name_from_entity_id (instance_named ''bed'') ''my_bed_phone'' \<noteq> ''my_bed_phone''"
  by (simp add: device_name_from_entity_id_def)

text \<open>
  Claim C7, amended: an entity id in which the name followed by the underscore occurs
  nowhere is returned unchanged; otherwise the leftmost occurrence, wherever it is, is
  removed, and only this one; in particular an entity id that begins with it loses this
  prefix once.
\<close>

theorem device_name_from_entity_id_leftmost:
  "(\<not> occurs_in (own_name self @ ''_'') entity_id
      \<longrightarrow> device_name_from_entity_id self entity_id = entity_id)
   \<and> (\<forall>a b. entity_id = a @ (own_name self @ ''_'') @ b
          \<and> (\<forall>k < length a. take (length (own_name self @ ''_'')) (drop k entity_id)
                \<noteq> own_name self @ ''_'')
        \<longrightarrow> device_name_from_entity_id self entity_id = a @ b)
   \<and> (\<forall>b. entity_id = (own_name self @ ''_'') @ b
        \<longrightarrow> device_name_from_entity_id self entity_id = b)"
proof (intro conjI allI impI)
  assume "\<not> occurs_in (own_name self @ ''_'') entity_id"
  then show "device_name_from_entity_id self entity_id = entity_id"
    by (simp add: device_name_from_entity_id_def replace_first_absent)
next
  fix a b
  assume h: "entity_id = a @ (own_name self @ ''_'') @ b
          \<and> (\<forall>k < length a. take (length (own_name self @ ''_'')) (drop k entity_id)
                \<noteq> own_name self @ ''_'')"
  then have e: "entity_id = a @ (own_name self @ ''_'') @ b"
    and n: "\<forall>k < length a. take (length (own_name self @ ''_'')) (drop k entity_id)
                \<noteq> own_name self @ ''_''"
    by blast+
  from n have "\<forall>k < length a. take (length (own_name self @ ''_''))
                 (drop k (a @ (own_name self @ ''_'') @ b)) \<noteq> own_name self @ ''_''"
    by (simp only: e)
  then have "replace_first (own_name self @ ''_'') [] (a @ (own_name self @ ''_'') @ b) = a @ [] @ b"
    by (rule replace_first_leftmost)
  with e show "device_name_from_entity_id self entity_id = a @ b"
    by (simp add: device_name_from_entity_id_def)
next
  fix b
  assume "entity_id = (own_name self @ ''_'') @ b"
  then show "device_name_from_entity_id self entity_id = b"
    using replace_first_prefix [of "own_name self @ ''_''" "[]" b]
    by (simp add: device_name_from_entity_id_def)
qed

theorem device_name_from_entity_id_leftmost_witness:
  "\<not> occurs_in (own_name (instance_named ''bed'') @ ''_'') ''phone''
   \<and> device_name_from_entity_id (instance_named ''bed'') ''phone'' = ''phone''
   \<and> ''my_bed_bed_x'' = ''my_'' @ (own_name (instance_named ''bed'') @ ''_'') @ ''bed_x''
   \<and> take (length (own_name (instance_named ''bed'') @ ''_'')) (drop 0 ''my_bed_bed_x'')
          \<noteq> own_name (instance_named ''bed'') @ ''_''
   \<and> take (length (own_name (instance_named ''bed'') @ ''_'')) (drop 1 ''my_bed_bed_x'')
          \<noteq> own_name (instance_named ''bed'') @ ''_''
   \<and> take (length (own_name (instance_named ''bed'') @ ''_'')) (drop 2 ''my_bed_bed_x'')
          \<noteq> own_name (instance_named ''bed'') @ ''_''
   \<and> device_name_from_entity_id (instance_named ''bed'') ''my_bed_bed_x'' = ''my_bed_x''
   \<and> device_name_from_entity_id (instance_named ''bed'') ''bed_bed_x'' = ''bed_x''"
  using device_name_from_entity_id_leftmost [of "instance_named ''bed''" "''phone''"]
        device_name_from_entity_id_leftmost [of "instance_named ''bed''" "''my_bed_bed_x''"]
        device_name_from_entity_id_leftmost [of "instance_named ''bed''" "''bed_bed_x''"]
  by (simp add: device_name_from_entity_id_def All_less_Suc)

section \<open>Migration\<close>

lemma new_options_of_self_update:
  "options (entry (self_update m self)) =
     \<lparr> name_key = Some (case name_key (options (entry self)) of
                         None \<Rightarrow> own_name self
                       | Some n \<Rightarrow> (case qos_key (options (entry self)) of
                                     None \<Rightarrow> own_name self | Some q \<Rightarrow> n)),
       qos_key = Some (case name_key (options (entry self)) of
                         None \<Rightarrow> 0
                       | Some n \<Rightarrow> (case qos_key (options (entry self)) of
                                     None \<Rightarrow> 0 | Some q \<Rightarrow> q)),
       topic_template_key = Some (case root_topic_key (options (entry self)) of
               Some t \<Rightarrow> t @ ''/'' @ m
             | None \<Rightarrow>
                 (case topic_key (options (entry self)) of
                    Some t \<Rightarrow> topic_join (butlast (topic_split t)) @ ''/'' @ m
                  | None \<Rightarrow> configured_topic m self)),
       root_topic_key = None, topic_key = None \<rparr>"
  by (simp add: self_update_def Let_def split: option.splits)

text \<open>
  Claim C8: when the old options hold \<^verbatim>\<open>root_topic\<close>, the new options' topic template
  is the root topic, a slash and the macro, whether or not \<^verbatim>\<open>topic\<close> is there too.
\<close>

theorem migration_root_topic:
  assumes "root_topic_key (options (entry self)) = Some r"
  shows "topic_template_key (options (entry (self_update DEVICE_MACRO self)))
           = Some (r @ ''/'' @ DEVICE_MACRO)"
  using assms by (simp add: new_options_of_self_update)

theorem migration_root_topic_witness:
  "root_topic_key (options (entry (SleepAsAndroidInstance (entry_with_options
       (no_keys\<lparr> name_key := Some ''bed'', root_topic_key := Some ''home'',
                  topic_key := Some ''old/topic/state'' \<rparr>))))) = Some ''home''
   \<and> topic_template_key (options (entry (self_update ''{device}''
       (SleepAsAndroidInstance (entry_with_options
         (no_keys\<lparr> name_key := Some ''bed'', root_topic_key := Some ''home'',
                    topic_key := Some ''old/topic/state'' \<rparr>))))))
       = Some ''home/{device}''"
  using migration_root_topic [of "SleepAsAndroidInstance (entry_with_options
       (no_keys\<lparr> name_key := Some ''bed'', root_topic_key := Some ''home'',
                  topic_key := Some ''old/topic/state'' \<rparr>))" "''home''" "''{device}''"]
  by (simp add: SleepAsAndroidInstance_def entry_with_options_def no_keys_def)

text \<open>
  Claim C9, as stated: without \<^verbatim>\<open>root_topic\<close>, the new topic template is the old
  \<^verbatim>\<open>topic\<close> with its last segment dropped and the macro appended as the last segment.
  It fails for a topic of one segment: for \<^verbatim>\<open>state\<close> the segments without the last one
  are none, so the claim gives the one segment \<^verbatim>\<open>{device}\<close>, and the code gives
  \<^verbatim>\<open>/{device}\<close>, an empty segment followed by the macro.
\<close>

theorem migration_single_segment_topic:
  "root_topic_key (options (entry (SleepAsAndroidInstance (entry_with_options
       (no_keys\<lparr> topic_key := Some ''state'' \<rparr>))))) = None
   \<and> topic_key (options (entry (SleepAsAndroidInstance (entry_with_options
       (no_keys\<lparr> topic_key := Some ''state'' \<rparr>))))) = Some ''state''
   \<and> topic_template_key (options (entry (self_update ''{device}''
       (SleepAsAndroidInstance (entry_with_options (no_keys\<lparr> topic_key := Some ''state'' \<rparr>))))))
       = Some ''/{device}''
   \<and> spec_migrated_topic ''{device}'' ''state'' = ''{device}''
   \<and> topic_template_key (options (entry (self_update ''{device}''
       (SleepAsAndroidInstance (entry_with_options (no_keys\<lparr> topic_key := Some ''state'' \<rparr>))))))
       \<noteq> Some (spec_migrated_topic ''{device}'' ''state'')
   \<and> topic_split ''/{device}'' = ['''', ''{device}'']"
  by (simp add: new_options_of_self_update spec_migrated_topic_def
      SleepAsAndroidInstance_def entry_with_options_def no_keys_def Let_def)

text \<open>
  Claim C9, amended: without \<^verbatim>\<open>root_topic\<close>, for an old \<^verbatim>\<open>topic\<close> that contains a
  slash the new topic template is the topic's segments without the last one, followed by
  the macro as the last segment; for a topic without a slash it is a slash followed by the
  macro.
\<close>

theorem migration_topic_last_segment:
  assumes "root_topic_key (options (entry self)) = None"
    and "topic_key (options (entry self)) = Some t"
  shows "(CHR ''/'' \<in> set t \<longrightarrow>
            topic_template_key (options (entry (self_update DEVICE_MACRO self)))
              = Some (spec_migrated_topic DEVICE_MACRO t))
         \<and> (CHR ''/'' \<notin> set t \<longrightarrow>
            topic_template_key (options (entry (self_update DEVICE_MACRO self)))
              = Some (''/'' @ DEVICE_MACRO))"
proof (intro conjI impI)
  assume "CHR ''/'' \<in> set t"
  then have "butlast (topic_split t) \<noteq> []" by (rule split_str_two)
  then have "spec_migrated_topic DEVICE_MACRO t
               = topic_join (butlast (topic_split t)) @ ''/'' @ DEVICE_MACRO"
    unfolding spec_migrated_topic_def by (rule join_str_snoc)
  then show "topic_template_key (options (entry (self_update DEVICE_MACRO self)))
              = Some (spec_migrated_topic DEVICE_MACRO t)"
    using assms by (simp add: new_options_of_self_update)
next
  assume "CHR ''/'' \<notin> set t"
  then have "topic_split t = [t]" by (rule split_str_plain)
  then show "topic_template_key (options (entry (self_update DEVICE_MACRO self)))
              = Some (''/'' @ DEVICE_MACRO)"
    using assms by (simp add: new_options_of_self_update)
qed

theorem migration_topic_last_segment_witness:
  "root_topic_key (options (entry (SleepAsAndroidInstance (entry_with_options
       (no_keys\<lparr> topic_key := Some ''home/bedroom/state'' \<rparr>))))) = None
   \<and> topic_key (options (entry (SleepAsAndroidInstance (entry_with_options
       (no_keys\<lparr> topic_key := Some ''home/bedroom/state'' \<rparr>))))) = Some ''home/bedroom/state''
   \<and> CHR ''/'' \<in> set ''home/bedroom/state''
   \<and> topic_template_key (options (entry (self_update ''{device}''
       (SleepAsAndroidInstance (entry_with_options
          (no_keys\<lparr> topic_key := Some ''home/bedroom/state'' \<rparr>))))))
       = Some ''home/bedroom/{device}''
   \<and> root_topic_key (options (entry (SleepAsAndroidInstance (entry_with_options
       (no_keys\<lparr> topic_key := Some ''bedroom'' \<rparr>))))) = None
   \<and> topic_key (options (entry (SleepAsAndroidInstance (entry_with_options
       (no_keys\<lparr> topic_key := Some ''bedroom'' \<rparr>))))) = Some ''bedroom''
   \<and> CHR ''/'' \<notin> set ''bedroom''
   \<and> topic_template_key (options (entry (self_update ''{device}''
       (SleepAsAndroidInstance (entry_with_options (no_keys\<lparr> topic_key := Some ''bedroom'' \<rparr>))))))
       = Some ''/{device}''"
  using migration_topic_last_segment [of "SleepAsAndroidInstance (entry_with_options
       (no_keys\<lparr> topic_key := Some ''home/bedroom/state'' \<rparr>))" "''home/bedroom/state''" "''{device}''"]
    migration_topic_last_segment [of "SleepAsAndroidInstance (entry_with_options
       (no_keys\<lparr> topic_key := Some ''bedroom'' \<rparr>))" "''bedroom''" "''{device}''"]
  by (simp add: SleepAsAndroidInstance_def entry_with_options_def no_keys_def
      spec_migrated_topic_def Let_def)

text \<open>
  Claim C10, as stated: the migration keeps \<^verbatim>\<open>qos\<close> whenever the old options hold it.
  It fails for old options that hold \<^verbatim>\<open>qos\<close> = 2 and no \<^verbatim>\<open>name\<close>: the lookup of
  \<^verbatim>\<open>name\<close> raises first, the handler sets both defaults, and the new \<^verbatim>\<open>qos\<close> is 0.
\<close>

theorem migration_qos_lost_without_name:
  "qos_key (options (entry_with_options (no_keys\<lparr> qos_key := Some 2 \<rparr>))) = Some 2
   \<and> qos_key (options (entry (self_update ''{device}''
        (SleepAsAndroidInstance (entry_with_options (no_keys\<lparr> qos_key := Some 2 \<rparr>))))))
       = Some 0
   \<and> qos_key (options (entry (self_update ''{device}''
        (SleepAsAndroidInstance (entry_with_options (no_keys\<lparr> qos_key := Some 2 \<rparr>))))))
       \<noteq> qos_key (options (entry_with_options (no_keys\<lparr> qos_key := Some 2 \<rparr>)))"
  by (simp add: new_options_of_self_update
      SleepAsAndroidInstance_def entry_with_options_def no_keys_def)

text \<open>
  Claim C10, amended: for an instance made from a config entry and then migrated, a
  \<^verbatim>\<open>name\<close> in the old options is kept; \<^verbatim>\<open>qos\<close> is kept when the old options hold both
  \<^verbatim>\<open>name\<close> and \<^verbatim>\<open>qos\<close>; when either is absent \<^verbatim>\<open>qos\<close> becomes 0; when \<^verbatim>\<open>name\<close>
  is absent the new name is the instance's name (the entry's data name, else
  \<^verbatim>\<open>SleepAsAndroid\<close>). So old options with a name and no \<^verbatim>\<open>qos\<close> keep the name and get
  \<^verbatim>\<open>qos\<close> = 0.
\<close>

theorem migration_name_and_qos:
  "(\<forall>n. name_key (options config_entry) = Some n \<longrightarrow>
        name_key (options (entry (self_update DEVICE_MACRO (SleepAsAndroidInstance config_entry))))
          = Some n)
   \<and> (\<forall>n q. name_key (options config_entry) = Some n \<and> qos_key (options config_entry) = Some q \<longrightarrow>
        qos_key (options (entry (self_update DEVICE_MACRO (SleepAsAndroidInstance config_entry))))
          = Some q)
   \<and> (name_key (options config_entry) = None \<or> qos_key (options config_entry) = None \<longrightarrow>
        qos_key (options (entry (self_update DEVICE_MACRO (SleepAsAndroidInstance config_entry))))
          = Some 0)
   \<and> (name_key (options config_entry) = None \<longrightarrow>
        name_key (options (entry (self_update DEVICE_MACRO (SleepAsAndroidInstance config_entry))))
          = Some (case name_key (data config_entry) of
                    Some n \<Rightarrow> n | None \<Rightarrow> ''SleepAsAndroid''))"
  by (auto simp add: new_options_of_self_update SleepAsAndroidInstance_def get_from_config_def
      split: option.splits)

theorem migration_name_and_qos_witness:
  "name_key (options (entry_with_options (no_keys\<lparr> name_key := Some ''bed'' \<rparr>))) = Some ''bed''
   \<and> qos_key (options (entry_with_options (no_keys\<lparr> name_key := Some ''bed'' \<rparr>))) = None
   \<and> name_key (options (entry (self_update ''{device}''
        (SleepAsAndroidInstance (entry_with_options (no_keys\<lparr> name_key := Some ''bed'' \<rparr>))))))
       = Some ''bed''
   \<and> qos_key (options (entry (self_update ''{device}''
        (SleepAsAndroidInstance (entry_with_options (no_keys\<lparr> name_key := Some ''bed'' \<rparr>))))))
       = Some 0
   \<and> qos_key (options (entry_with_options (no_keys\<lparr> name_key := Some ''bed'', qos_key := Some 1 \<rparr>)))
       = Some 1
   \<and> qos_key (options (entry (self_update ''{device}''
        (SleepAsAndroidInstance (entry_with_options
           (no_keys\<lparr> name_key := Some ''bed'', qos_key := Some 1 \<rparr>))))))
       = Some 1
   \<and> name_key (options (entry_with_options no_keys)) = None
   \<and> name_key (options (entry (self_update ''{device}''
        (SleepAsAndroidInstance (entry_with_options no_keys)))))
       = Some ''SleepAsAndroid''"
  using migration_name_and_qos [of "entry_with_options (no_keys\<lparr> name_key := Some ''bed'' \<rparr>)" "''{device}''"]
    migration_name_and_qos [of "entry_with_options (no_keys\<lparr> name_key := Some ''bed'', qos_key := Some 1 \<rparr>)"
                               "''{device}''"]
    migration_name_and_qos [of "entry_with_options no_keys" "''{device}''"]
  by (simp add: entry_with_options_def no_keys_def)

end
